theory Spec2Isabelle
  imports Main "HOL-Library.AList"
begin

section \<open>JavaScript values\<close>

text \<open>
  The library works on arbitrary JavaScript values.  A value is a primitive or a
  reference to an object; a reference carries the kind of the object it points to
  (ordinary object, array or function), which is fixed when the object is created.
  Numbers are restricted to integers: no operation of the library computes with them.
  A symbol has an identity and a description.  A property key is a string or a symbol.
\<close>

type_synonym addr = nat

datatype symbol = Symbol nat string

datatype key = KStr string | KSym symbol

datatype val =
    VUndefined
  | VNull
  | VBool bool
  | VNum int
  | VBigInt int
  | VStr string
  | VSym symbol
  | VObject addr
  | VArray addr
  | VFunction addr

datatype error =
    TypeError string
  | ReferenceError string
  | Error string
  | Thrown val

text \<open>
  A call stack is the value of \<open>(new Error()).stack\<close>.  The property is not part of
  the language: an engine that has it gives a string, and on an engine that fills it
  only when the error is thrown, or that lacks it, the value is \<open>undefined\<close> (\<open>None\<close>).
\<close>

type_synonym stack = "string option"

fun stack_val :: "stack \<Rightarrow> val" where
  "stack_val None = VUndefined"
| "stack_val (Some s) = VStr s"

text \<open>A call stack inside a template literal.\<close>

fun stack_text :: "stack \<Rightarrow> string" where
  "stack_text None = ''undefined''"
| "stack_text (Some s) = s"

text \<open>The \<open>typeof\<close> operator.\<close>

fun typeof_js :: "val \<Rightarrow> string" where
  "typeof_js VUndefined = ''undefined''"
| "typeof_js VNull = ''object''"
| "typeof_js (VBool b) = ''boolean''"
| "typeof_js (VNum n) = ''number''"
| "typeof_js (VBigInt n) = ''bigint''"
| "typeof_js (VStr s) = ''string''"
| "typeof_js (VSym s) = ''symbol''"
| "typeof_js (VObject a) = ''object''"
| "typeof_js (VArray a) = ''object''"
| "typeof_js (VFunction a) = ''function''"

fun isArray :: "val \<Rightarrow> bool" where
  "isArray (VArray a) = True"
| "isArray v = False"

text \<open>Truthiness, as used by \<open>!o\<close>, \<open>!!x\<close> and \<open>if (x)\<close>.\<close>

fun truthy :: "val \<Rightarrow> bool" where
  "truthy VUndefined = False"
| "truthy VNull = False"
| "truthy (VBool b) = b"
| "truthy (VNum n) = (n \<noteq> 0)"
| "truthy (VBigInt n) = (n \<noteq> 0)"
| "truthy (VStr s) = (s \<noteq> [])"
| "truthy v = True"

fun ref_addr :: "val \<Rightarrow> addr option" where
  "ref_addr (VObject a) = Some a"
| "ref_addr (VArray a) = Some a"
| "ref_addr (VFunction a) = Some a"
| "ref_addr v = None"

section \<open>Type classification\<close>

text \<open>
  \<open>getType\<close> is \<open>typeof\<close> with two changes: \<open>null\<close> gives \<open>"null"\<close> and an array
  gives \<open>"array"\<close>.
\<close>

definition getType :: "val \<Rightarrow> string" where
  "getType o' =
     (if o' = VNull then ''null''
      else if isArray o' then ''array''
      else typeof_js o')"

definition isValidTypeChange :: "val \<Rightarrow> val \<Rightarrow> bool" where
  "isValidTypeChange from to =
     (let fromType = getType from; toType = getType to in
      if fromType = ''null'' \<or> toType = ''null'' then True
      else if fromType = ''undefined'' \<or> toType = ''undefined'' then False
      else fromType = toType)"

text \<open>
  The classification as the specification words it: every value falls into one class,
  \<open>null\<close> and arrays are classes of their own.  (\<open>typeof\<close> also has the class
  \<open>bigint\<close>, which the rule treats like every other concrete class.)
\<close>

datatype classification =
    NullLike | Absent | Boolean | Number | BigInteger | Text
  | ArrayLike | StructuredObject | FunctionLike | SymbolLike

fun classify :: "val \<Rightarrow> classification" where
  "classify VUndefined = Absent"
| "classify VNull = NullLike"
| "classify (VBool b) = Boolean"
| "classify (VNum n) = Number"
| "classify (VBigInt n) = BigInteger"
| "classify (VStr s) = Text"
| "classify (VSym s) = SymbolLike"
| "classify (VObject a) = StructuredObject"
| "classify (VArray a) = ArrayLike"
| "classify (VFunction a) = FunctionLike"

definition spec_valid_transition :: "val \<Rightarrow> val \<Rightarrow> bool" where
  "spec_valid_transition from to =
     (if classify from = NullLike \<or> classify to = NullLike then True
      else if classify from = Absent \<or> classify to = Absent then False
      else classify from = classify to)"

section \<open>Objects, the heap and the state of the module\<close>

text \<open>
  An object of the heap has its own properties, in creation order, and the properties
  it reaches through its prototype chain.  All are writable data properties.  The own
  properties are created by assignment and hence enumerable; the inherited ones are
  class methods and \<open>constructor\<close>, which are not.  \<open>cname\<close> is the text of
  \<open>o.constructor.name\<close> and \<open>fname\<close> the text of \<open>o.name\<close> (empty when missing);
  \<open>str\<close> is the result of converting the object to a string (\<open>None\<close> when the
  conversion throws).  A Proxy created with \<open>defendHandler\<close> is an object whose
  \<open>proxy_of\<close> names its target.  \<open>defended\<close> says whether \<open>DefendedBase.prototype\<close>
  is on the prototype chain; \<open>extensible\<close> is cleared by \<open>Object.seal\<close>.
\<close>

record obj =
  own :: "(key \<times> val) list"
  inherited :: "(key \<times> val) list"
  cname :: string
  fname :: string
  str :: "string option"
  proxy_of :: "addr option"
  defended :: bool
  extensible :: bool

text \<open>
  The module's variables: \<open>mode\<close>, the two maps of objects under construction (Maps,
  kept in insertion order), the WeakMap \<open>proxyToObject\<close>, the WeakMap
  \<open>releasedObjects\<close> from a released object to the call stack of its release, the Map
  \<open>typeProperties\<close> (keyed by the class; a Set of names, in insertion order) and
  \<open>checkTimerId\<close>.  \<open>console\<close> collects the calls of \<open>console.warn\<close> made by the
  default \<open>logDefendedObjectWarning\<close>: the text and the call stack passed with it
  (the sink stays the default one: \<open>SetWarningCallback\<close> is not called).
  \<open>timers\<close> counts the timers created by \<open>setTimeout\<close>.
\<close>

record state =
  mode :: string
  heap :: "addr \<Rightarrow> obj"
  next_addr :: addr
  ctorObjectToProxy :: "(addr \<times> addr) list"
  ctorProxyToObject :: "(addr \<times> addr) list"
  proxyToObject :: "addr \<rightharpoonup> addr"
  releasedObjects :: "addr \<rightharpoonup> stack"
  typeProperties :: "val \<rightharpoonup> string list"
  checkTimerId :: int
  timers :: nat
  console :: "(string \<times> stack) list"

definition empty_obj :: obj where
  "empty_obj = \<lparr> own = [], inherited = [], cname = [], fname = [], str = None,
     proxy_of = None, defended = False, extensible = True \<rparr>"

text \<open>The state of the module when it has just been loaded.\<close>

definition init_state :: state where
  "init_state = \<lparr> mode = ''defend'', heap = (\<lambda>a. empty_obj), next_addr = 0,
     ctorObjectToProxy = [], ctorProxyToObject = [], proxyToObject = Map.empty,
     releasedObjects = Map.empty, typeProperties = Map.empty, checkTimerId = -1,
     timers = 0, console = [] \<rparr>"

text \<open>\<open>Map.has\<close> on a Map kept as an association list.\<close>

definition map_has :: "('k \<times> 'v) list \<Rightarrow> 'k \<Rightarrow> bool" where
  "map_has m k = (k \<in> fst ` set m)"

section \<open>Mode and diagnostics\<close>

definition VALID_MODES :: "val set" where
  "VALID_MODES = {VStr ''defend'', VStr ''seal'', VStr ''off''}"

definition SetMode :: "val \<Rightarrow> state \<Rightarrow> (error + unit) \<times> state" where
  "SetMode m st =
     (case m of
        VStr s \<Rightarrow>
          (if m \<in> VALID_MODES then (Inr (), st\<lparr>mode := s\<rparr>)
           else (Inl (Error ''invalid mode''), st))
      | _ \<Rightarrow> (Inl (Error ''invalid mode''), st))"

text \<open>
  The default sink: \<open>console.warn("[Defend-check] " + msg + " @", GetCallStack())\<close>.
  \<open>GetCallStack()\<close> returns the current call stack, which the host provides; every
  operation below takes it as the argument \<open>stk\<close>.
\<close>

definition logDefendedObjectWarning :: "string \<Rightarrow> stack \<Rightarrow> state \<Rightarrow> state" where
  "logDefendedObjectWarning msg stk st =
     st\<lparr>console := console st @ [(''[Defend-check] '' @ msg @ '' @'', stk)]\<rparr>"

text \<open>String conversion, as a template literal performs it on each substitution.\<close>

definition show_nat_digit :: "nat \<Rightarrow> char" where
  "show_nat_digit n = ''0123456789'' ! (n mod 10)"

fun show_nat :: "nat \<Rightarrow> string" where
  "show_nat n =
     (if n < 10 then [show_nat_digit n]
      else show_nat (n div 10) @ [show_nat_digit n])"

declare show_nat.simps [simp del]

definition show_int :: "int \<Rightarrow> string" where
  "show_int i = (if i < 0 then CHR ''-'' # show_nat (nat (- i)) else show_nat (nat i))"

definition symbol_cannot_convert :: error where
  "symbol_cannot_convert = TypeError ''Cannot convert a Symbol value to a string''"

fun ToString :: "(addr \<Rightarrow> obj) \<Rightarrow> val \<Rightarrow> error + string" where
  "ToString h VUndefined = Inr ''undefined''"
| "ToString h VNull = Inr ''null''"
| "ToString h (VBool b) = Inr (if b then ''true'' else ''false'')"
| "ToString h (VNum n) = Inr (show_int n)"
| "ToString h (VBigInt n) = Inr (show_int n)"
| "ToString h (VStr s) = Inr s"
| "ToString h (VSym s) = Inl symbol_cannot_convert"
| "ToString h (VObject a) =
     (case str (h a) of
        None \<Rightarrow> Inl (TypeError ''Cannot convert object to primitive value'')
      | Some s \<Rightarrow> Inr s)"
| "ToString h (VArray a) =
     (case str (h a) of
        None \<Rightarrow> Inl (TypeError ''Cannot convert object to primitive value'')
      | Some s \<Rightarrow> Inr s)"
| "ToString h (VFunction a) =
     (case str (h a) of
        None \<Rightarrow> Inl (TypeError ''Cannot convert object to primitive value'')
      | Some s \<Rightarrow> Inr s)"

text \<open>A property key inside a template literal: a symbol key cannot be converted.\<close>

fun key_text :: "key \<Rightarrow> error + string" where
  "key_text (KStr k) = Inr k"
| "key_text (KSym s) = Inl symbol_cannot_convert"

text \<open>\<open>getName\<close>: a readable name for a value.\<close>

fun getName :: "(addr \<Rightarrow> obj) \<Rightarrow> val \<Rightarrow> string" where
  "getName h VNull = ''null''"
| "getName h VUndefined = ''undefined''"
| "getName h (VBool b) = ''<boolean>''"
| "getName h (VNum n) = ''<number>''"
| "getName h (VStr s) = ''<string>''"
| "getName h (VArray a) = ''<array>''"
| "getName h (VSym (Symbol i d)) = ''<'' @ (''Symbol('' @ d @ '')'') @ ''>''"
| "getName h (VFunction a) =
     (if fname (h a) \<noteq> [] \<and> fname (h a) \<noteq> ''Function'' then fname (h a)
      else ''<anonymous function>'')"
| "getName h (VObject a) =
     (if cname (h a) \<noteq> [] \<and> cname (h a) \<noteq> ''Object'' then cname (h a)
      else ''<anonymous object>'')"
| "getName h (VBigInt n) = ''<unknown>''"

section \<open>Property operations on an ordinary object\<close>

text \<open>
  \<open>key in target\<close>, \<open>target[key]\<close> and \<open>target[key] = value\<close> on an object that is not
  a Proxy.  The module is an ES module, hence strict code: adding a property to an
  object that is not extensible throws a TypeError.
\<close>

definition has_prop :: "obj \<Rightarrow> key \<Rightarrow> bool" where
  "has_prop ob k = (map_has (own ob) k \<or> map_has (inherited ob) k)"

definition get_prop :: "obj \<Rightarrow> key \<Rightarrow> val" where
  "get_prop ob k =
     (case map_of (own ob) k of
        Some v \<Rightarrow> v
      | None \<Rightarrow> (case map_of (inherited ob) k of Some v \<Rightarrow> v | None \<Rightarrow> VUndefined))"

definition put_prop :: "addr \<Rightarrow> key \<Rightarrow> val \<Rightarrow> state \<Rightarrow> (error + unit) \<times> state" where
  "put_prop a k v st =
     (let ob = heap st a in
      if map_has (own ob) k \<or> extensible ob
      then (Inr (), st\<lparr>heap := (heap st)(a := ob\<lparr>own := AList.update k v (own ob)\<rparr>)\<rparr>)
      else (Inl (TypeError ''Cannot add property, object is not extensible''), st))"

section \<open>The messages\<close>

definition sq :: string where
  "sq = [CHR 0x27]"

definition nl :: string where
  "nl = [CHR 0x0A]"

fun join :: "string \<Rightarrow> string list \<Rightarrow> string" where
  "join sep [] = []"
| "join sep [x] = x"
| "join sep (x # y # ys) = x @ sep @ join sep (y # ys)"

definition msg_get_missing :: "string \<Rightarrow> string \<Rightarrow> string" where
  "msg_get_missing k name =
     ''Accessed missing property '' @ sq @ k @ sq @ '' from defended object '' @ sq @ name @ sq
       @ '', returning undefined''"

definition msg_get_released :: "string \<Rightarrow> string \<Rightarrow> string \<Rightarrow> string" where
  "msg_get_released k name rel =
     ''Accessed property '' @ sq @ k @ sq @ '' on a released object '' @ sq @ name @ sq @ nl
       @ ''Object was originally released at: '' @ rel @ '')'' @ nl @ ''Call stack at access: ''"

definition msg_set_released :: "string \<Rightarrow> string \<Rightarrow> string \<Rightarrow> string" where
  "msg_set_released k name rel =
     ''Set property '' @ sq @ k @ sq @ '' on a released object '' @ sq @ name @ sq @ nl
       @ ''Object was originally released at: '' @ rel @ '')'' @ nl @ ''Call stack at access: ''"

definition msg_set_nonexistent :: "string \<Rightarrow> string \<Rightarrow> string \<Rightarrow> string" where
  "msg_set_nonexistent k v name =
     ''Set non-existent property '' @ sq @ k @ sq @ '' to '' @ sq @ v @ sq
       @ '' on defended object '' @ sq @ name @ sq"

definition msg_set_type :: "string \<Rightarrow> string \<Rightarrow> string \<Rightarrow> string \<Rightarrow> string" where
  "msg_set_type fromType k toType name =
     ''Set '' @ sq @ fromType @ sq @ '' property '' @ sq @ k @ sq @ '' to type '' @ sq @ toType @ sq
       @ '' on defended object '' @ sq @ name @ sq"

definition msg_delete :: "string \<Rightarrow> string \<Rightarrow> string" where
  "msg_delete k name =
     ''Cannot delete property '' @ sq @ k @ sq @ '' from defended object '' @ sq @ name @ sq"

definition msg_define :: "string \<Rightarrow> string \<Rightarrow> string" where
  "msg_define k name =
     ''Cannot define property '' @ sq @ k @ sq @ '' on defended object '' @ sq @ name @ sq"

definition msg_not_new :: "string \<Rightarrow> string" where
  "msg_not_new leftoverNames =
     ''An object derived from DefendedBase was not created with New(). This will disable some checks. Possible affected class names: ''
       @ leftoverNames"

definition msg_inconsistent :: "string \<Rightarrow> string list \<Rightarrow> string" where
  "msg_inconsistent name inconsistentProperties =
     sq @ name @ sq @ '' constructor creates inconsistent properties: ''
       @ join '', '' inconsistentProperties"

section \<open>The handler of the Proxy\<close>

definition VALID_GET_MISSING_KEYS :: "key set" where
  "VALID_GET_MISSING_KEYS = {KStr ''then'', KStr ''splice''}"

text \<open>
  \<open>get(target, key)\<close>.  Both checks require \<open>typeof key !== "symbol"\<close>, so the key is
  a string wherever a message is built.
\<close>

definition handler_get :: "addr \<Rightarrow> key \<Rightarrow> stack \<Rightarrow> state \<Rightarrow> val \<times> state" where
  "handler_get target key stk st =
     (let st1 =
        (case key of
           KSym s \<Rightarrow> st
         | KStr k \<Rightarrow>
             if \<not> has_prop (heap st target) key \<and> key \<notin> VALID_GET_MISSING_KEYS
             then logDefendedObjectWarning
                    (msg_get_missing k (getName (heap st) (VObject target))) stk st
             else st);
          st2 =
        (case key of
           KSym s \<Rightarrow> st1
         | KStr k \<Rightarrow>
             (case releasedObjects st1 target of
                Some rel \<Rightarrow>
                  if key \<notin> VALID_GET_MISSING_KEYS
                  then logDefendedObjectWarning
                         (msg_get_released k (getName (heap st1) (VObject target)) (stack_text rel)) stk st1
                  else st1
              | None \<Rightarrow> st1))
      in (get_prop (heap st2 target) key, st2))"

text \<open>
  \<open>set(target, key, value)\<close>.  Building a message converts the key (and, for a
  non-existent property, the value) to a string, which throws for a symbol; nothing has
  been logged or assigned at that point.
\<close>

definition handler_set ::
  "addr \<Rightarrow> key \<Rightarrow> val \<Rightarrow> stack \<Rightarrow> state \<Rightarrow> (error + bool) \<times> state" where
  "handler_set target key value stk st =
     (case releasedObjects st target of
        Some rel \<Rightarrow>
          (case key_text key of
             Inl e \<Rightarrow> (Inl e, st)
           | Inr k \<Rightarrow>
               (Inr True, logDefendedObjectWarning
                  (msg_set_released k (getName (heap st) (VObject target)) (stack_text rel)) stk st))
      | None \<Rightarrow>
          if \<not> has_prop (heap st target) key \<and> \<not> map_has (ctorObjectToProxy st) target then
            (case key_text key of
               Inl e \<Rightarrow> (Inl e, st)
             | Inr k \<Rightarrow>
                 (case ToString (heap st) value of
                    Inl e \<Rightarrow> (Inl e, st)
                  | Inr v \<Rightarrow>
                      (Inr True, logDefendedObjectWarning
                         (msg_set_nonexistent k v (getName (heap st) (VObject target))) stk st)))
          else if \<not> isValidTypeChange (get_prop (heap st target) key) value
                  \<and> \<not> map_has (ctorObjectToProxy st) target then
            (case key_text key of
               Inl e \<Rightarrow> (Inl e, st)
             | Inr k \<Rightarrow>
                 (Inr True, logDefendedObjectWarning
                    (msg_set_type (getType (get_prop (heap st target) key)) k (getType value)
                       (getName (heap st) (VObject target))) stk st))
          else
            (case put_prop target key value st of
               (Inl e, st') \<Rightarrow> (Inl e, st')
             | (Inr u, st') \<Rightarrow> (Inr True, st')))"

definition deleteProperty :: "addr \<Rightarrow> key \<Rightarrow> state \<Rightarrow> (error + bool) \<times> state" where
  "deleteProperty target key st =
     (case key_text key of
        Inl e \<Rightarrow> (Inl e, st)
      | Inr k \<Rightarrow> (Inl (ReferenceError (msg_delete k (getName (heap st) (VObject target)))), st))"

text \<open>A property descriptor: its fields, none of which the handler reads.\<close>

type_synonym descriptor = "(string \<times> val) list"

definition defineProperty ::
  "addr \<Rightarrow> key \<Rightarrow> descriptor \<Rightarrow> state \<Rightarrow> (error + bool) \<times> state" where
  "defineProperty target key desc st =
     (case key_text key of
        Inl e \<Rightarrow> (Inl e, st)
      | Inr k \<Rightarrow> (Inl (ReferenceError (msg_define k (getName (heap st) (VObject target)))), st))"

text \<open>
  The property operations of the language on an object \<open>a\<close>: through the trap when \<open>a\<close>
  is a Proxy, the ordinary operation otherwise.
\<close>

definition js_get :: "addr \<Rightarrow> key \<Rightarrow> stack \<Rightarrow> state \<Rightarrow> val \<times> state" where
  "js_get a key stk st =
     (case proxy_of (heap st a) of
        Some target \<Rightarrow> handler_get target key stk st
      | None \<Rightarrow> (get_prop (heap st a) key, st))"

definition js_set :: "addr \<Rightarrow> key \<Rightarrow> val \<Rightarrow> stack \<Rightarrow> state \<Rightarrow> (error + bool) \<times> state" where
  "js_set a key value stk st =
     (case proxy_of (heap st a) of
        Some target \<Rightarrow> handler_set target key value stk st
      | None \<Rightarrow>
          (case put_prop a key value st of
             (Inl e, st') \<Rightarrow> (Inl e, st')
           | (Inr u, st') \<Rightarrow> (Inr True, st')))"

section \<open>Classes and construction\<close>

text \<open>
  A class, as far as \<open>new\<close> is concerned: whether it derives from \<open>DefendedBase\<close>,
  the properties its prototype chain gives to instances, the string conversion of its
  instances, and the body of its constructor (the code after \<open>super()\<close>), which runs on
  \<open>this\<close> with the arguments and either completes or throws.  The environment \<open>env\<close>
  gives the class of each function that can be called with \<open>new\<close>.
\<close>

record jsclass =
  extends_defended :: bool
  proto_props :: "(key \<times> val) list"
  inst_str :: "string option"
  body :: "val list \<Rightarrow> addr \<Rightarrow> stack \<Rightarrow> state \<Rightarrow> (error + unit) \<times> state"

type_synonym env = "addr \<Rightarrow> jsclass option"

text \<open>\<open>Object.create(newTarget.prototype)\<close>, for the class \<open>c\<close> of the function at \<open>f\<close>.\<close>

definition new_object :: "addr \<Rightarrow> jsclass \<Rightarrow> state \<Rightarrow> obj" where
  "new_object f c st =
     \<lparr> own = [], inherited = proto_props c, cname = fname (heap st f), fname = [],
       str = inst_str c, proxy_of = None, defended = extends_defended c, extensible = True \<rparr>"

definition alloc_this :: "addr \<Rightarrow> jsclass \<Rightarrow> state \<Rightarrow> addr \<times> state" where
  "alloc_this f c st =
     (next_addr st,
      st\<lparr>heap := (heap st)(next_addr st := new_object f c st), next_addr := next_addr st + 1\<rparr>)"

text \<open>
  The constructor of \<open>DefendedBase\<close>.  Outside mode \<open>"defend"\<close> it returns nothing and
  \<open>this\<close> is the ordinary new object.  In mode \<open>"defend"\<close> it creates the real object
  and its Proxy, enters them in the three maps, arms the timer and returns the Proxy,
  which becomes \<open>this\<close> of the derived constructor.
\<close>

definition DefendedBase_constructor :: "addr \<Rightarrow> jsclass \<Rightarrow> state \<Rightarrow> addr \<times> state" where
  "DefendedBase_constructor newTarget c st =
     (if mode st \<noteq> ''defend'' then alloc_this newTarget c st
      else
        let realObject = next_addr st;
            proxy = next_addr st + 1;
            st1 = st\<lparr>heap := (heap st)
                      (realObject := new_object newTarget c st,
                       proxy := empty_obj\<lparr>str := inst_str c, proxy_of := Some realObject\<rparr>),
                    next_addr := next_addr st + 2\<rparr>;
            st2 = st1\<lparr>ctorObjectToProxy := AList.update realObject proxy (ctorObjectToProxy st1),
                     ctorProxyToObject := AList.update proxy realObject (ctorProxyToObject st1),
                     proxyToObject := (proxyToObject st1)(proxy \<mapsto> realObject)\<rparr>;
            st3 = (if checkTimerId st2 = -1
                   then st2\<lparr>checkTimerId := int (timers st2) + 1, timers := timers st2 + 1\<rparr>
                   else st2)
        in (proxy, st3))"

text \<open>The expression \<open>new Type(...args)\<close>.\<close>

definition construct ::
  "env \<Rightarrow> val \<Rightarrow> val list \<Rightarrow> stack \<Rightarrow> state \<Rightarrow> (error + val) \<times> state" where
  "construct env Type args stk st =
     (case Type of
        VFunction f \<Rightarrow>
          (case env f of
             None \<Rightarrow> (Inl (TypeError ''not a constructor''), st)
           | Some c \<Rightarrow>
               (let (this, st1) =
                      (if extends_defended c then DefendedBase_constructor f c st
                       else alloc_this f c st)
                in case body c args this stk st1 of
                     (Inl e, st2) \<Rightarrow> (Inl e, st2)
                   | (Inr u, st2) \<Rightarrow> (Inr (VObject this), st2)))
      | _ \<Rightarrow> (Inl (TypeError ''not a constructor''), st))"

text \<open>
  \<open>o instanceof DefendedBase\<close>; a Proxy without a \<open>getPrototypeOf\<close> trap answers for
  its target.
\<close>

definition instanceof_DefendedBase :: "state \<Rightarrow> val \<Rightarrow> bool" where
  "instanceof_DefendedBase st v =
     (case ref_addr v of
        None \<Rightarrow> False
      | Some a \<Rightarrow>
          (case proxy_of (heap st a) of
             Some t \<Rightarrow> defended (heap st t)
           | None \<Rightarrow> defended (heap st a)))"

text \<open>
  \<open>Object.seal(o)\<close>.  On a Proxy of this handler it first makes the target
  non-extensible and then redefines each own property, which the \<open>defineProperty\<close> trap
  refuses at the first one.
\<close>

definition Object_seal :: "val \<Rightarrow> state \<Rightarrow> (error + val) \<times> state" where
  "Object_seal v st =
     (case ref_addr v of
        None \<Rightarrow> (Inr v, st)
      | Some a \<Rightarrow>
          (case proxy_of (heap st a) of
             None \<Rightarrow> (Inr v, st\<lparr>heap := (heap st)(a := (heap st a)\<lparr>extensible := False\<rparr>)\<rparr>)
           | Some t \<Rightarrow>
               (let st1 = st\<lparr>heap := (heap st)(t := (heap st t)\<lparr>extensible := False\<rparr>)\<rparr> in
                case own (heap st t) of
                  [] \<Rightarrow> (Inr v, st1)
                | (k, x) # ps \<Rightarrow>
                    (case defineProperty t k [(''configurable'', VBool False)] st1 of
                       (Inl e, st2) \<Rightarrow> (Inl e, st2)
                     | (Inr b, st2) \<Rightarrow> (Inr v, st2)))))"

definition Defend :: "val \<Rightarrow> state \<Rightarrow> (error + val) \<times> state" where
  "Defend o' st =
     (if \<not> truthy o' \<or> typeof_js o' \<noteq> ''object'' then (Inl (TypeError ''expected object''), st)
      else if mode st = ''defend'' \<and> instanceof_DefendedBase st o' then
        (case ref_addr o' of
           None \<Rightarrow> (Inr o', st)
         | Some p \<Rightarrow>
             (case map_of (ctorProxyToObject st) p of
                None \<Rightarrow> (Inr o', st)
              | Some realObject \<Rightarrow>
                  (Inr o', st\<lparr>ctorProxyToObject := AList.delete p (ctorProxyToObject st),
                             ctorObjectToProxy := AList.delete realObject (ctorObjectToProxy st)\<rparr>)))
      else if mode st = ''seal'' then Object_seal o' st
      else (Inr o', st))"

section \<open>Consistent property sets\<close>

text \<open>A Set in insertion order: \<open>add\<close> appends a new element and ignores a known one.\<close>

definition set_add :: "'a \<Rightarrow> 'a list \<Rightarrow> 'a list" where
  "set_add k s = (if k \<in> set s then s else s @ [k])"

text \<open>\<open>for (const k in o)\<close>: the enumerable string keys; a Proxy answers for its target.\<close>

fun enumerable_keys :: "(key \<times> val) list \<Rightarrow> string list" where
  "enumerable_keys [] = []"
| "enumerable_keys ((KStr k, v) # ps) = k # enumerable_keys ps"
| "enumerable_keys ((KSym s, v) # ps) = enumerable_keys ps"

definition for_in_keys :: "state \<Rightarrow> val \<Rightarrow> string list" where
  "for_in_keys st v =
     (case ref_addr v of
        None \<Rightarrow> []
      | Some a \<Rightarrow>
          (case proxy_of (heap st a) of
             Some t \<Rightarrow> enumerable_keys (own (heap st t))
           | None \<Rightarrow> enumerable_keys (own (heap st a))))"

definition GetObjectPropertySet :: "state \<Rightarrow> val \<Rightarrow> string list" where
  "GetObjectPropertySet st o' = foldl (\<lambda>ret k. set_add k ret) [] (for_in_keys st o')"

text \<open>
  The loop over \<open>existingProperties\<close>: a common key is removed from \<open>properties\<close>, a key
  that \<open>properties\<close> lacks is pushed on \<open>inconsistentProperties\<close>.
\<close>

fun verify_loop :: "string list \<Rightarrow> string list \<Rightarrow> string list \<Rightarrow> string list \<times> string list" where
  "verify_loop [] properties inconsistentProperties = (properties, inconsistentProperties)"
| "verify_loop (k # ks) properties inconsistentProperties =
     (if k \<in> set properties
      then verify_loop ks (removeAll k properties) inconsistentProperties
      else verify_loop ks properties (inconsistentProperties @ [k]))"

definition inconsistent_properties :: "string list \<Rightarrow> string list \<Rightarrow> string list" where
  "inconsistent_properties existingProperties properties =
     (case verify_loop existingProperties properties [] of
        (rest, inconsistentProperties) \<Rightarrow> inconsistentProperties @ rest)"

definition VerifyObjectPropertiesConsistent :: "val \<Rightarrow> val \<Rightarrow> stack \<Rightarrow> state \<Rightarrow> state" where
  "VerifyObjectPropertiesConsistent Type o' stk st =
     (let properties = GetObjectPropertySet st o' in
      case typeProperties st Type of
        Some existingProperties \<Rightarrow>
          (let inconsistentProperties = inconsistent_properties existingProperties properties in
           if inconsistentProperties \<noteq> []
           then logDefendedObjectWarning
                  (msg_inconsistent (getName (heap st) Type) inconsistentProperties) stk st
           else st)
      | None \<Rightarrow> st\<lparr>typeProperties := (typeProperties st)(Type \<mapsto> properties)\<rparr>)"

section \<open>New, Release, WasReleased\<close>

definition New :: "env \<Rightarrow> val \<Rightarrow> val list \<Rightarrow> stack \<Rightarrow> state \<Rightarrow> (error + val) \<times> state" where
  "New env Type args stk st =
     (if typeof_js Type \<noteq> ''function'' then (Inl (TypeError ''expected function''), st)
      else
        case construct env Type args stk st of
          (Inl e, st1) \<Rightarrow> (Inl e, st1\<lparr>ctorProxyToObject := [], ctorObjectToProxy := []\<rparr>)
        | (Inr o', st1) \<Rightarrow>
            (let st2 = (if mode st1 = ''defend''
                        then VerifyObjectPropertiesConsistent Type o' stk st1 else st1)
             in Defend o' st2))"

text \<open>\<open>proxyToObject.get(o)\<close>: a WeakMap has no entry for a value that is not an object.\<close>

definition real_object :: "state \<Rightarrow> val \<Rightarrow> addr option" where
  "real_object st o' = (case ref_addr o' of None \<Rightarrow> None | Some p \<Rightarrow> proxyToObject st p)"

definition Release :: "val \<Rightarrow> stack \<Rightarrow> state \<Rightarrow> state" where
  "Release o' stk st =
     (case real_object st o' of
        Some realObject \<Rightarrow> st\<lparr>releasedObjects := (releasedObjects st)(realObject \<mapsto> stk)\<rparr>
      | None \<Rightarrow> st)"

text \<open>
  \<open>!!releasedObjects.get(realObject)\<close>: the truth value of the stored call stack,
  which is false for \<open>undefined\<close> and for the empty string.
\<close>

definition WasReleased :: "val \<Rightarrow> state \<Rightarrow> bool" where
  "WasReleased o' st =
     (case real_object st o' of
        None \<Rightarrow> False
      | Some realObject \<Rightarrow>
          (case releasedObjects st realObject of
             None \<Rightarrow> False
           | Some rel \<Rightarrow> truthy (stack_val rel)))"

section \<open>The check that New was used\<close>

definition CheckDefendedObjectsUsedCorrectly :: "stack \<Rightarrow> state \<Rightarrow> state" where
  "CheckDefendedObjectsUsedCorrectly stk st =
     (let st1 = st\<lparr>checkTimerId := -1\<rparr> in
      if length (ctorObjectToProxy st1) > 0 \<or> length (ctorProxyToObject st1) > 0 then
        (let uniqueNames = foldl (\<lambda>ret n. set_add n ret) []
                             (map (\<lambda>(o', p). getName (heap st1) (VObject o')) (ctorObjectToProxy st1));
             leftoverNames = join '','' uniqueNames;
             st2 = logDefendedObjectWarning (msg_not_new leftoverNames) stk st1
         in st2\<lparr>ctorObjectToProxy := [], ctorProxyToObject := []\<rparr>)
      else st1)"

section \<open>Runs of the module\<close>

text \<open>
  The entry points of the module: the four traps, which the engine calls for every
  property operation on a Proxy, the exported functions, and the timer callback.  A run
  is a list of calls, each with the call stack of its call site.
\<close>

datatype op =
    DoGet addr key
  | DoSet addr key val
  | DoDelete addr key
  | DoDefine addr key descriptor
  | DoSetMode val
  | DoNew val "val list"
  | DoRelease val
  | DoWasReleased val
  | DoCheck

fun apply_op :: "env \<Rightarrow> op \<times> stack \<Rightarrow> state \<Rightarrow> state" where
  "apply_op env (DoGet target key, stk) st = snd (handler_get target key stk st)"
| "apply_op env (DoSet target key value, stk) st = snd (handler_set target key value stk st)"
| "apply_op env (DoDelete target key, stk) st = snd (deleteProperty target key st)"
| "apply_op env (DoDefine target key desc, stk) st = snd (defineProperty target key desc st)"
| "apply_op env (DoSetMode m, stk) st = snd (SetMode m st)"
| "apply_op env (DoNew Type args, stk) st = snd (New env Type args stk st)"
| "apply_op env (DoRelease o', stk) st = Release o' stk st"
| "apply_op env (DoWasReleased o', stk) st = st"
| "apply_op env (DoCheck, stk) st = CheckDefendedObjectsUsedCorrectly stk st"

fun run :: "env \<Rightarrow> (op \<times> stack) list \<Rightarrow> state \<Rightarrow> state" where
  "run env [] st = st"
| "run env (c # cs) st = run env cs (apply_op env c st)"

text \<open>
  Every Proxy is a new object: the keys of \<open>proxyToObject\<close> are allocated addresses.
\<close>

definition proxies_allocated :: "state \<Rightarrow> bool" where
  "proxies_allocated st = (\<forall>p t. proxyToObject st p = Some t \<longrightarrow> p < next_addr st)"

text \<open>
  What the runs below ask of the constructors they call: a constructor body does not
  call \<open>Release\<close> (\<open>ctor_no_release\<close>), and it keeps the entries of \<open>proxyToObject\<close>
  and creates Proxies only at new addresses (\<open>ctor_keeps_proxies\<close>).
\<close>

definition ctor_no_release :: "env \<Rightarrow> bool" where
  "ctor_no_release env =
     (\<forall>f c args this stk st. env f = Some c \<longrightarrow>
        releasedObjects (snd (body c args this stk st)) = releasedObjects st)"

definition proxies_kept :: "state \<Rightarrow> state \<Rightarrow> bool" where
  "proxies_kept st st' =
     (proxies_allocated st'
      \<and> (\<forall>p t. proxyToObject st p = Some t \<longrightarrow> proxyToObject st' p = Some t))"

definition ctor_keeps_proxies :: "env \<Rightarrow> bool" where
  "ctor_keeps_proxies env =
     (\<forall>f c args this stk st. env f = Some c \<longrightarrow> proxies_allocated st \<longrightarrow>
        proxies_kept st (snd (body c args this stk st)))"

definition stacks_nonempty :: "(op \<times> stack) list \<Rightarrow> bool" where
  "stacks_nonempty cs = (\<forall>c \<in> set cs. truthy (stack_val (snd c)))"

section \<open>Example classes\<close>

text \<open>
  The classes of \<open>example.js\<close>, used to run the definitions on concrete inputs:
  \<open>Test\<close> sets \<open>_str\<close>; \<open>InconsistentProperties\<close> sets \<open>_commonProperty\<close> and then
  \<open>_withFlag\<close> or \<open>_withoutFlag\<close>; \<open>Plain\<close> has the same constructor but does not
  derive from \<open>DefendedBase\<close>; \<open>Thrower\<close> sets a property and throws.
\<close>

definition assign :: "addr \<Rightarrow> key \<Rightarrow> val \<Rightarrow> stack \<Rightarrow> state \<Rightarrow> (error + unit) \<times> state" where
  "assign this k v stk st =
     (case js_set this k v stk st of
        (Inl e, st') \<Rightarrow> (Inl e, st')
      | (Inr b, st') \<Rightarrow> (Inr (), st'))"

definition and_then ::
  "(error + unit) \<times> state \<Rightarrow> (state \<Rightarrow> (error + unit) \<times> state) \<Rightarrow> (error + unit) \<times> state" where
  "and_then r f = (case r of (Inl e, st) \<Rightarrow> (Inl e, st) | (Inr u, st) \<Rightarrow> f st)"

definition first_arg :: "val list \<Rightarrow> val" where
  "first_arg args = (case args of [] \<Rightarrow> VUndefined | a # as \<Rightarrow> a)"

definition Test_class :: jsclass where
  "Test_class =
     \<lparr> extends_defended = True,
       proto_props = [(KStr ''constructor'', VFunction 0), (KStr ''SetString'', VFunction 4),
                      (KStr ''GetString'', VFunction 5)],
       inst_str = Some ''[object Object]'',
       body = (\<lambda>args this stk st. assign this (KStr ''_str'') (VStr ''foo'') stk st) \<rparr>"

definition flag_body :: "val list \<Rightarrow> addr \<Rightarrow> stack \<Rightarrow> state \<Rightarrow> (error + unit) \<times> state" where
  "flag_body args this stk st =
     and_then (assign this (KStr ''_commonProperty'') (VNum 1) stk st)
       (\<lambda>st1. if truthy (first_arg args)
              then assign this (KStr ''_withFlag'') (VNum 2) stk st1
              else assign this (KStr ''_withoutFlag'') (VNum 3) stk st1)"

definition InconsistentProperties_class :: jsclass where
  "InconsistentProperties_class =
     \<lparr> extends_defended = True,
       proto_props = [(KStr ''constructor'', VFunction 1)],
       inst_str = Some ''[object Object]'',
       body = flag_body \<rparr>"

definition Plain_class :: jsclass where
  "Plain_class =
     \<lparr> extends_defended = False,
       proto_props = [(KStr ''constructor'', VFunction 2)],
       inst_str = Some ''[object Object]'',
       body = flag_body \<rparr>"

definition Thrower_class :: jsclass where
  "Thrower_class =
     \<lparr> extends_defended = True,
       proto_props = [(KStr ''constructor'', VFunction 3)],
       inst_str = Some ''[object Object]'',
       body = (\<lambda>args this stk st.
                 and_then (assign this (KStr ''_a'') (VNum 1) stk st)
                   (\<lambda>st1. (Inl (Thrown (VStr ''boom'')), st1))) \<rparr>"

definition example_env :: env where
  "example_env =
     [0 \<mapsto> Test_class, 1 \<mapsto> InconsistentProperties_class, 2 \<mapsto> Plain_class,
      3 \<mapsto> Thrower_class]"

definition function_obj :: "string \<Rightarrow> obj" where
  "function_obj name = empty_obj\<lparr>fname := name, str := Some (''class '' @ name)\<rparr>"

text \<open>The module just loaded, with the four classes and two methods on the heap.\<close>

definition example_state :: state where
  "example_state =
     init_state\<lparr>heap := (\<lambda>a. empty_obj)
                  (0 := function_obj ''Test'', 1 := function_obj ''InconsistentProperties'',
                   2 := function_obj ''Plain'', 3 := function_obj ''Thrower'',
                   4 := function_obj ''SetString'', 5 := function_obj ''GetString''),
                next_addr := 6\<rparr>"

text \<open>
  \<open>const o = New(Test)\<close>: the real object is at address 6 and its Proxy at 7.
  \<open>released_state\<close> is the state after \<open>Release(o)\<close>; \<open>constructing_state\<close> is the
  state inside the constructor of \<open>Test\<close>, after \<open>this._str = "foo"\<close>.
\<close>

definition test_state :: state where
  "test_state = snd (New example_env (VFunction 0) [] (Some ''at New'') example_state)"

definition released_state :: state where
  "released_state = Release (VObject 7) (Some ''at Release'') test_state"

definition constructing_state :: state where
  "constructing_state = snd (construct example_env (VFunction 0) [] (Some ''at new'') example_state)"

text \<open>
  Two constructions of \<open>Plain\<close>: \<open>plain_state1\<close> is the state after
  \<open>New(Plain, true)\<close> (instance at address 6); \<open>plain_state2\<close> is the state in the
  second call \<open>New(Plain, false)\<close> when the constructor has returned the instance at
  address 7.
\<close>

definition plain_state1 :: state where
  "plain_state1 = snd (New example_env (VFunction 2) [VBool True] (Some ''first New'') example_state)"

definition plain_state2 :: state where
  "plain_state2 = snd (construct example_env (VFunction 2) [VBool False] (Some ''second New'') plain_state1)"

text \<open>
  \<open>New(Thrower)\<close> called while the instance of \<open>Test\<close> is still under
  construction: \<open>thrower_start\<close> is the state when the body of the constructor of
  \<open>Thrower\<close> starts (real object 8, Proxy 9), \<open>thrower_raised\<close> the state in which it
  throws.
\<close>

definition thrower_start :: state where
  "thrower_start = snd (DefendedBase_constructor 3 Thrower_class constructing_state)"

definition thrower_raised :: state where
  "thrower_raised = snd (body Thrower_class [] 9 (Some ''at New'') thrower_start)"

text \<open>
  \<open>n\<close> reads of the same key, one after the other, and what one read of a string key
  on a released target reports: the missing-property warning when the key is missing,
  then the released-object warning.
\<close>

fun read_times :: "nat \<Rightarrow> addr \<Rightarrow> key \<Rightarrow> stack \<Rightarrow> state \<Rightarrow> state" where
  "read_times 0 p key stk st = st"
| "read_times (Suc n) p key stk st = read_times n p key stk (snd (js_get p key stk st))"

definition read_report :: "state \<Rightarrow> addr \<Rightarrow> string \<Rightarrow> stack \<Rightarrow> stack \<Rightarrow> (string \<times> stack) list" where
  "read_report st target k rel stk =
     (if has_prop (heap st target) (KStr k) then []
      else [(''[Defend-check] '' @ msg_get_missing k (getName (heap st) (VObject target)) @ '' @'', stk)])
     @ [(''[Defend-check] '' @ msg_get_released k (getName (heap st) (VObject target)) (stack_text rel) @ '' @'', stk)]"



text \<open>A run on the released instance of \<open>Test\<close>, with a call of every kind.\<close>

definition example_run :: "(op \<times> stack) list" where
  "example_run =
     [(DoGet 6 (KStr ''_str''), Some ''at read''),
      (DoSet 6 (KStr ''_str'') (VStr ''bar''), Some ''at write''),
      (DoDelete 6 (KStr ''_str''), Some ''at delete''),
      (DoNew (VFunction 0) [], Some ''at New''),
      (DoRelease (VObject 7), Some ''at second Release''),
      (DoSetMode (VStr ''off''), Some ''at SetMode''),
      (DoCheck, Some ''at timer'')]"

section \<open>Evaluating the examples\<close>

lemmas model_defs =
  New_def construct_def DefendedBase_constructor_def alloc_this_def new_object_def
  Defend_def instanceof_DefendedBase_def VerifyObjectPropertiesConsistent_def
  GetObjectPropertySet_def for_in_keys_def set_add_def inconsistent_properties_def
  js_set_def js_get_def handler_set_def handler_get_def put_prop_def get_prop_def has_prop_def
  map_has_def logDefendedObjectWarning_def Release_def real_object_def WasReleased_def
  assign_def and_then_def first_arg_def empty_obj_def function_obj_def init_state_def
  Let_def

lemmas example_defs =
  example_env_def example_state_def Test_class_def InconsistentProperties_class_def
  Plain_class_def Thrower_class_def flag_body_def

lemma test_state_heap:
  "heap test_state 6 =
     \<lparr> own = [(KStr ''_str'', VStr ''foo'')],
       inherited = [(KStr ''constructor'', VFunction 0), (KStr ''SetString'', VFunction 4),
                    (KStr ''GetString'', VFunction 5)],
       cname = ''Test'', fname = [], str = Some ''[object Object]'', proxy_of = None,
       defended = True, extensible = True \<rparr>"
  by (simp add: test_state_def model_defs example_defs)

lemma test_state_maps:
  "releasedObjects test_state = Map.empty"
  "ctorObjectToProxy test_state = []"
  "ctorProxyToObject test_state = []"
  "proxyToObject test_state 7 = Some 6"
  "console test_state = []"
  "mode test_state = ''defend''"
  "typeProperties test_state (VFunction 0) = Some [''_str'']"
  "proxy_of (heap test_state 7) = Some 6"
  by (simp_all add: test_state_def model_defs example_defs)

section \<open>The type-compatibility rule\<close>

text \<open>
  Claim C4.  For every pair of values, \<open>isValidTypeChange\<close> is the rule of the
  specification on the classification of the two values: valid when either side is
  null, otherwise invalid when either side is undefined, otherwise valid exactly when
  both sides have the same classification.  The tags of \<open>getType\<close> agree exactly when
  the classifications agree, so \<open>null\<close> and arrays are told apart from plain objects;
  null to undefined and undefined to null are valid.
\<close>

theorem isValidTypeChange_classification:
  "isValidTypeChange a b = spec_valid_transition a b
   \<and> isValidTypeChange a b =
       (if getType a = ''null'' \<or> getType b = ''null'' then True
        else if getType a = ''undefined'' \<or> getType b = ''undefined'' then False
        else getType a = getType b)
   \<and> (getType a = getType b) = (classify a = classify b)
   \<and> isValidTypeChange VNull VUndefined \<and> isValidTypeChange VUndefined VNull"
  by (cases a; cases b) (simp_all add: isValidTypeChange_def spec_valid_transition_def getType_def)

theorem isValidTypeChange_classification_witness:
  "\<not> isValidTypeChange (VArray 1) (VObject 2) \<and> isValidTypeChange (VNum 1) VNull
   \<and> \<not> isValidTypeChange VUndefined VUndefined \<and> isValidTypeChange (VStr ''a'') (VStr ''b'')"
  using isValidTypeChange_classification [of "VArray 1" "VObject 2"]
    isValidTypeChange_classification [of "VNum 1" VNull]
    isValidTypeChange_classification [of VUndefined VUndefined]
    isValidTypeChange_classification [of "VStr ''a''" "VStr ''b''"]
  by (simp add: spec_valid_transition_def)

section \<open>Writes\<close>

text \<open>
  The checks of \<open>set\<close> in their order, for a string key: a released target is
  reported and the write discarded; else a key that is missing outside construction;
  else an invalid type change outside construction; otherwise the assignment is made.
\<close>

lemma handler_set_released:
  assumes "releasedObjects st target = Some rel"
  shows "handler_set target (KStr k) v stk st
           = (Inr True, logDefendedObjectWarning
                (msg_set_released k (getName (heap st) (VObject target)) (stack_text rel)) stk st)"
  using assms by (simp add: handler_set_def)

lemma handler_set_nonexistent:
  assumes "releasedObjects st target = None"
    and "\<not> has_prop (heap st target) (KStr k)" and "\<not> map_has (ctorObjectToProxy st) target"
    and "ToString (heap st) v = Inr s"
  shows "handler_set target (KStr k) v stk st
           = (Inr True, logDefendedObjectWarning
                (msg_set_nonexistent k s (getName (heap st) (VObject target))) stk st)"
  using assms by (simp add: handler_set_def)



text \<open>
  Claim C1.  The checks come in the order the claim gives, as the four lemmas above
  show, but the claim also says that a write never raises an error to the caller.
  On the finished instance of \<open>Test\<close>, the write \<open>o[Symbol("tag")] = "x"\<close> reaches
  the check for a non-existent property, whose message converts the symbol key to a
  string: the trap, and with it the write through the Proxy, throws a TypeError;
  nothing is logged or assigned.
\<close>

theorem set_symbol_key_raises:
  "handler_set 6 (KSym (Symbol 0 ''tag'')) (VStr ''x'') (Some ''at write'') test_state
     = (Inl symbol_cannot_convert, test_state)
   \<and> js_set 7 (KSym (Symbol 0 ''tag'')) (VStr ''x'') (Some ''at write'') test_state
     = (Inl symbol_cannot_convert, test_state)"
  by (simp add: js_set_def handler_set_def test_state_maps test_state_heap has_prop_def map_has_def)

section \<open>Delete and define\<close>

text \<open>
  Claim C8.  On every target, for every key and every descriptor, in every state (so
  also while the target is under construction), the traps \<open>deleteProperty\<close> and
  \<open>defineProperty\<close> throw and leave the whole state, hence the properties of the
  instance, unchanged.  For a string key the error is the ReferenceError of the handler.
\<close>

theorem delete_and_define_always_throw:
  "(\<exists>e. deleteProperty target key st = (Inl e, st))
   \<and> (\<exists>e. defineProperty target key desc st = (Inl e, st))
   \<and> deleteProperty target (KStr k) st
       = (Inl (ReferenceError (msg_delete k (getName (heap st) (VObject target)))), st)
   \<and> defineProperty target (KStr k) desc st
       = (Inl (ReferenceError (msg_define k (getName (heap st) (VObject target)))), st)"
  by (cases key) (simp_all add: deleteProperty_def defineProperty_def)

section \<open>Consistency of property sets\<close>








lemma plain_state1_fields:
  "typeProperties plain_state1 (VFunction 2) = Some [''_commonProperty'', ''_withFlag'']"
  "console plain_state1 = []"
  "mode plain_state1 = ''defend''"
  by (simp_all add: plain_state1_def model_defs example_defs)

lemma plain_state2_fields:
  "typeProperties plain_state2 (VFunction 2) = Some [''_commonProperty'', ''_withFlag'']"
  "console plain_state2 = []"
  "GetObjectPropertySet plain_state2 (VObject 7) = [''_commonProperty'', ''_withoutFlag'']"
  "fname (heap plain_state2 2) = ''Plain''"
  by (simp_all add: plain_state2_def plain_state1_def model_defs example_defs)



section \<open>New\<close>

lemma construct_class:
  "construct env (VFunction f) args stk st =
     (case env f of
        None \<Rightarrow> (Inl (TypeError ''not a constructor''), st)
      | Some c \<Rightarrow>
          (case (if extends_defended c then DefendedBase_constructor f c st else alloc_this f c st) of
             (this, st0) \<Rightarrow>
               (case body c args this stk st0 of
                  (Inl e, st1) \<Rightarrow> (Inl e, st1)
                | (Inr u, st1) \<Rightarrow> (Inr (VObject this), st1))))"
  by (simp add: construct_def Let_def split: option.splits prod.splits sum.splits)

lemma construct_result:
  assumes "construct env Type args stk st = (Inr v, st1)"
  shows "\<exists>f this. Type = VFunction f \<and> v = VObject this"
  using assms
  by (cases Type) (auto simp: construct_def Let_def split: option.splits prod.splits sum.splits if_splits)

lemma allocation_keeps_typeProperties:
  "typeProperties (snd (DefendedBase_constructor f c st)) = typeProperties st"
  "typeProperties (snd (alloc_this f c st)) = typeProperties st"
  by (simp_all add: DefendedBase_constructor_def alloc_this_def Let_def)

text \<open>
  Claim C6.  When the constructor of the class passed to \<open>New\<close> raises an error
  \<open>e\<close> in state \<open>st1\<close>, \<open>New\<close> raises the same error \<open>e\<close> and its final state is
  \<open>st1\<close> with both construction maps emptied, whatever sessions they held; the
  validator does not run, so the shape records are as the constructor left them, and
  creating the instance did not touch them either: when the constructor body leaves
  them alone they are those of the state in which \<open>New\<close> was called.
\<close>

theorem New_constructor_raises:
  assumes "env f = Some c"
    and "(if extends_defended c then DefendedBase_constructor f c st else alloc_this f c st)
           = (this, st0)"
    and "body c args this stk st0 = (Inl e, st1)"
  shows "New env (VFunction f) args stk st
           = (Inl e, st1\<lparr>ctorProxyToObject := [], ctorObjectToProxy := []\<rparr>)
         \<and> ctorProxyToObject (snd (New env (VFunction f) args stk st)) = []
         \<and> ctorObjectToProxy (snd (New env (VFunction f) args stk st)) = []
         \<and> typeProperties (snd (New env (VFunction f) args stk st)) = typeProperties st1
         \<and> typeProperties st0 = typeProperties st
         \<and> (typeProperties st1 = typeProperties st0 \<longrightarrow>
              typeProperties (snd (New env (VFunction f) args stk st)) = typeProperties st)"
proof -
  have c: "construct env (VFunction f) args stk st = (Inl e, st1)"
    using assms by (simp add: construct_class)
  have t: "typeProperties st0 = typeProperties st"
    using assms(2) allocation_keeps_typeProperties [of f c st]
    by (cases "extends_defended c") (auto dest: arg_cong [where f = snd])
  show ?thesis using c t by (simp add: New_def)
qed

lemma constructing_state_fields:
  "ctorObjectToProxy constructing_state = [(6, 7)]"
  "ctorProxyToObject constructing_state = [(7, 6)]"
  "typeProperties constructing_state = Map.empty"
  "mode constructing_state = ''defend''"
  "next_addr constructing_state = 8"
  "releasedObjects constructing_state = Map.empty"
  "console constructing_state = []"
  "own (heap constructing_state 6) = [(KStr ''_str'', VStr ''foo'')]"
  by (simp_all add: constructing_state_def model_defs example_defs)

lemma thrower_fields:
  "DefendedBase_constructor 3 Thrower_class constructing_state = (9, thrower_start)"
  "body Thrower_class [] 9 (Some ''at New'') thrower_start = (Inl (Thrown (VStr ''boom'')), thrower_raised)"
  "ctorObjectToProxy thrower_raised = [(6, 7), (8, 9)]"
  "typeProperties thrower_raised = Map.empty"
  by (simp_all add: thrower_raised_def thrower_start_def constructing_state_fields
       model_defs example_defs)

theorem New_constructor_raises_witness:
  "example_env 3 = Some Thrower_class
   \<and> ctorObjectToProxy thrower_raised = [(6, 7), (8, 9)]
   \<and> fst (New example_env (VFunction 3) [] (Some ''at New'') constructing_state)
       = Inl (Thrown (VStr ''boom''))
   \<and> ctorObjectToProxy (snd (New example_env (VFunction 3) [] (Some ''at New'') constructing_state))
       = []
   \<and> ctorProxyToObject (snd (New example_env (VFunction 3) [] (Some ''at New'') constructing_state))
       = []
   \<and> typeProperties (snd (New example_env (VFunction 3) [] (Some ''at New'') constructing_state))
       = typeProperties constructing_state
   \<and> typeProperties (snd (New example_env (VFunction 3) [] (Some ''at New'') constructing_state))
        (VFunction 3) = None"
proof -
  have e: "example_env 3 = Some Thrower_class" by (simp add: example_env_def)
  have a: "(if extends_defended Thrower_class
            then DefendedBase_constructor 3 Thrower_class constructing_state
            else alloc_this 3 Thrower_class constructing_state) = (9, thrower_start)"
    by (simp add: thrower_fields) (simp add: Thrower_class_def)
  show ?thesis
    using New_constructor_raises [where env = example_env and f = 3 and c = Thrower_class
        and st = constructing_state and this = 9 and ?st0.0 = thrower_start and args = "[]"
        and stk = "Some ''at New''" and e = "Thrown (VStr ''boom'')" and ?st1.0 = thrower_raised]
      e a thrower_fields(2,3,4)
    by (simp add: constructing_state_fields)
qed

lemma Verify_keeps:
  "mode (VerifyObjectPropertiesConsistent Type v stk st) = mode st"
  "heap (VerifyObjectPropertiesConsistent Type v stk st) = heap st"
  "ctorProxyToObject (VerifyObjectPropertiesConsistent Type v stk st) = ctorProxyToObject st"
  "ctorObjectToProxy (VerifyObjectPropertiesConsistent Type v stk st) = ctorObjectToProxy st"
  "releasedObjects (VerifyObjectPropertiesConsistent Type v stk st) = releasedObjects st"
  "proxyToObject (VerifyObjectPropertiesConsistent Type v stk st) = proxyToObject st"
  "next_addr (VerifyObjectPropertiesConsistent Type v stk st) = next_addr st"
  by (simp_all add: VerifyObjectPropertiesConsistent_def logDefendedObjectWarning_def Let_def
       split: option.splits)

lemma Verify_records:
  "typeProperties (VerifyObjectPropertiesConsistent Type v stk st) Type \<noteq> None"
  by (simp add: VerifyObjectPropertiesConsistent_def logDefendedObjectWarning_def Let_def
       split: option.splits)

lemma Defend_defend_mode:
  assumes "mode st = ''defend''"
  shows "fst (Defend (VObject a) st) = Inr (VObject a)"
    and "typeProperties (snd (Defend (VObject a) st)) = typeProperties st"
    and "console (snd (Defend (VObject a) st)) = console st"
    and "heap (snd (Defend (VObject a) st)) = heap st"
    and "\<not> instanceof_DefendedBase st (VObject a) \<Longrightarrow> snd (Defend (VObject a) st) = st"
  using assms by (simp_all add: Defend_def split: option.splits)

text \<open>
  Claim C10.  When the constructor succeeds with instance \<open>o'\<close> and the mode is
  \<open>"defend"\<close>, \<open>New\<close> returns \<open>o'\<close> and its shape records and warnings are those of
  the validator run on \<open>o'\<close>, for every class: the class has a shape record afterwards.
  When the instance does not derive from \<open>DefendedBase\<close>, the final state is exactly
  the validator's, and the instance is returned as it is.
\<close>

theorem New_verifies_every_class:
  assumes "construct env Type args stk st = (Inr o', st1)"
    and "mode st1 = ''defend''"
  shows "fst (New env Type args stk st) = Inr o'
         \<and> typeProperties (snd (New env Type args stk st))
             = typeProperties (VerifyObjectPropertiesConsistent Type o' stk st1)
         \<and> console (snd (New env Type args stk st))
             = console (VerifyObjectPropertiesConsistent Type o' stk st1)
         \<and> typeProperties (snd (New env Type args stk st)) Type \<noteq> None
         \<and> (\<not> instanceof_DefendedBase st1 o' \<longrightarrow>
              snd (New env Type args stk st) = VerifyObjectPropertiesConsistent Type o' stk st1)"
proof -
  from construct_result [OF assms(1)] obtain f this
    where T: "Type = VFunction f" and o: "o' = VObject this" by blast
  let ?V = "VerifyObjectPropertiesConsistent Type o' stk st1"
  have n: "New env Type args stk st = Defend (VObject this) ?V"
    using assms T o by (simp add: New_def)
  have m: "mode ?V = ''defend''" using assms(2) by (simp add: Verify_keeps)
  have i: "instanceof_DefendedBase ?V (VObject this) = instanceof_DefendedBase st1 (VObject this)"
    by (simp add: instanceof_DefendedBase_def Verify_keeps split: option.splits)
  show ?thesis
    using Defend_defend_mode [OF m, of this] Verify_records [of Type o' stk st1] n o i by simp
qed

lemma plain_construct2:
  "construct example_env (VFunction 2) [VBool False] (Some ''second New'') plain_state1
     = (Inr (VObject 7), plain_state2)"
proof -
  have "fst (construct example_env (VFunction 2) [VBool False] (Some ''second New'') plain_state1)
          = Inr (VObject 7)"
    by (simp add: plain_state1_def model_defs example_defs)
  then show ?thesis by (simp add: plain_state2_def prod_eq_iff)
qed

lemma plain_state2_more:
  "mode plain_state2 = ''defend''"
  "proxy_of (heap plain_state2 7) = None"
  "defended (heap plain_state2 7) = False"
  by (simp_all add: plain_state2_def plain_state1_def model_defs example_defs)

theorem New_verifies_every_class_witness:
  "construct example_env (VFunction 2) [VBool False] (Some ''second New'') plain_state1
     = (Inr (VObject 7), plain_state2)
   \<and> mode plain_state2 = ''defend''
   \<and> \<not> instanceof_DefendedBase plain_state2 (VObject 7)
   \<and> proxy_of (heap plain_state2 7) = None
   \<and> fst (New example_env (VFunction 2) [VBool False] (Some ''second New'') plain_state1) = Inr (VObject 7)
   \<and> typeProperties (snd (New example_env (VFunction 2) [VBool False] (Some ''second New'') plain_state1))
        (VFunction 2) = Some [''_commonProperty'', ''_withFlag'']
   \<and> console (snd (New example_env (VFunction 2) [VBool False] (Some ''second New'') plain_state1))
       = [(''[Defend-check] '' @ msg_inconsistent ''Plain'' [''_withFlag'', ''_withoutFlag''] @ '' @'',
           Some ''second New'')]"
proof -
  have i: "\<not> instanceof_DefendedBase plain_state2 (VObject 7)"
    by (simp add: instanceof_DefendedBase_def plain_state2_more)
  have v: "VerifyObjectPropertiesConsistent (VFunction 2) (VObject 7) (Some ''second New'') plain_state2
      = plain_state2\<lparr>console := 
          [(''[Defend-check] '' @ msg_inconsistent ''Plain'' [''_withFlag'', ''_withoutFlag''] @ '' @'',
           Some ''second New'')]\<rparr>"
    by (simp add: VerifyObjectPropertiesConsistent_def plain_state2_fields
        inconsistent_properties_def logDefendedObjectWarning_def)
  show ?thesis
    using New_verifies_every_class [OF plain_construct2 plain_state2_more(1)] i v
    by (simp add: plain_construct2 plain_state2_more plain_state2_fields)
qed

section \<open>Reads of a released object\<close>

lemma handler_get_keeps:
  "heap (snd (handler_get target key stk st)) = heap st"
  "releasedObjects (snd (handler_get target key stk st)) = releasedObjects st"
  "proxyToObject (snd (handler_get target key stk st)) = proxyToObject st"
  "next_addr (snd (handler_get target key stk st)) = next_addr st"
  "ctorObjectToProxy (snd (handler_get target key stk st)) = ctorObjectToProxy st"
  "typeProperties (snd (handler_get target key stk st)) = typeProperties st"
  by (simp_all add: handler_get_def logDefendedObjectWarning_def Let_def
       split: key.splits option.splits)

lemma handler_get_value:
  "fst (handler_get target key stk st) = get_prop (heap st target) key"
  by (simp add: handler_get_def logDefendedObjectWarning_def Let_def
       split: key.splits option.splits)

lemma handler_get_released:
  assumes "releasedObjects st target = Some rel" and "KStr k \<notin> VALID_GET_MISSING_KEYS"
  shows "console (snd (handler_get target (KStr k) stk st))
           = console st @ read_report st target k rel stk"
  using assms by (simp add: handler_get_def logDefendedObjectWarning_def Let_def read_report_def)

lemma handler_get_exempt:
  assumes "key \<in> VALID_GET_MISSING_KEYS \<or> (\<exists>s. key = KSym s)"
  shows "handler_get target key stk st = (get_prop (heap st target) key, st)"
proof (cases key)
  case (KStr k)
  with assms have "key \<in> VALID_GET_MISSING_KEYS" by auto
  with KStr show ?thesis by (simp add: handler_get_def Let_def split: option.splits)
next
  case (KSym s)
  then show ?thesis by (simp add: handler_get_def Let_def)
qed

lemma read_report_keeps:
  "read_report (snd (handler_get target key stk st)) target k rel stk' = read_report st target k rel stk'"
  by (simp add: read_report_def handler_get_keeps)

lemma read_times_released:
  assumes "proxy_of (heap st p) = Some target" and "releasedObjects st target = Some rel"
    and "KStr k \<notin> VALID_GET_MISSING_KEYS"
  shows "console (read_times n p (KStr k) stk st)
           = console st @ concat (replicate n (read_report st target k rel stk))"
  using assms
proof (induction n arbitrary: st)
  case 0
  then show ?case by simp
next
  case (Suc n)
  let ?st' = "snd (js_get p (KStr k) stk st)"
  have j: "js_get p (KStr k) stk st = handler_get target (KStr k) stk st"
    using Suc.prems(1) by (simp add: js_get_def)
  have "console (read_times n p (KStr k) stk ?st')
          = console ?st' @ concat (replicate n (read_report ?st' target k rel stk))"
    using Suc.prems by (intro Suc.IH) (simp_all add: j handler_get_keeps)
  then show ?case
    using Suc.prems by (simp add: j handler_get_released read_report_keeps)
qed

text \<open>
  Claim C2, as stated, fails: the instance of \<open>Test\<close> has been released, and the read
  of the key \<open>then\<close> through its Proxy returns \<open>undefined\<close> and reports nothing.
\<close>

theorem released_read_exempt_keys:
  "releasedObjects released_state 6 = Some (Some ''at Release'')
   \<and> proxy_of (heap released_state 7) = Some 6
   \<and> js_get 7 (KStr ''then'') (Some ''at access'') released_state = (VUndefined, released_state)"
  by (simp add: released_state_def Release_def real_object_def test_state_maps test_state_heap
       js_get_def handler_get_def VALID_GET_MISSING_KEYS_def get_prop_def Let_def)

text \<open>
  Claim C2, amended.  For a Proxy \<open>p\<close> whose target is in \<open>releasedObjects\<close>, every read
  of a string key other than \<open>then\<close> and \<open>splice\<close> returns the underlying value and
  appends \<open>read_report\<close> to the log: its last entry is the released-object warning,
  whose text contains the stored release context \<open>rel\<close> and which is logged with the
  call stack of the access, whether or not the key exists on the target.  The read
  changes neither the heap nor \<open>releasedObjects\<close>, and \<open>n\<close> reads in a row report
  \<open>n\<close> times.  A read of \<open>then\<close>, of \<open>splice\<close> or of a symbol key reports nothing.
  (A read has no error result: \<open>js_get\<close> returns a value and a state.)
\<close>

theorem released_read_reports:
  assumes "proxy_of (heap st p) = Some target"
    and "releasedObjects st target = Some rel"
    and "KStr k \<notin> VALID_GET_MISSING_KEYS"
  shows "fst (js_get p (KStr k) stk st) = get_prop (heap st target) (KStr k)
         \<and> console (snd (js_get p (KStr k) stk st)) = console st @ read_report st target k rel stk
         \<and> last (read_report st target k rel stk)
             = (''[Defend-check] '' @ msg_get_released k (getName (heap st) (VObject target)) (stack_text rel) @ '' @'', stk)
         \<and> msg_get_released k (getName (heap st) (VObject target)) (stack_text rel)
             = ''Accessed property '' @ sq @ k @ sq @ '' on a released object '' @ sq
                 @ getName (heap st) (VObject target) @ sq @ nl
                 @ ''Object was originally released at: '' @ stack_text rel @ '')'' @ nl @ ''Call stack at access: ''
         \<and> heap (snd (js_get p (KStr k) stk st)) = heap st
         \<and> releasedObjects (snd (js_get p (KStr k) stk st)) = releasedObjects st
         \<and> console (read_times n p (KStr k) stk st)
             = console st @ concat (replicate n (read_report st target k rel stk))
         \<and> (key \<in> VALID_GET_MISSING_KEYS \<or> (\<exists>s. key = KSym s) \<longrightarrow>
              js_get p key stk st = (get_prop (heap st target) key, st))"
proof -
  have j: "\<And>key. js_get p key stk st = handler_get target key stk st"
    using assms(1) by (simp add: js_get_def)
  show ?thesis
    using assms handler_get_exempt [of key target stk st]
    by (simp add: j handler_get_value handler_get_released handler_get_keeps
        read_times_released read_report_def msg_get_released_def)
qed

lemma released_state_fields:
  "releasedObjects released_state 6 = Some (Some ''at Release'')"
  "proxy_of (heap released_state 7) = Some 6"
  "heap released_state 6 = heap test_state 6"
  "console released_state = []"
  by (simp_all add: released_state_def Release_def real_object_def test_state_maps)

theorem released_read_reports_witness:
  "proxy_of (heap released_state 7) = Some 6
   \<and> releasedObjects released_state 6 = Some (Some ''at Release'')
   \<and> KStr ''_str'' \<notin> VALID_GET_MISSING_KEYS
   \<and> js_get 7 (KStr ''then'') (Some ''at access'') released_state = (VUndefined, released_state)
   \<and> fst (js_get 7 (KStr ''_str'') (Some ''at access'') released_state) = VStr ''foo''
   \<and> console (snd (js_get 7 (KStr ''_str'') (Some ''at access'') released_state))
       = [(''[Defend-check] '' @ msg_get_released ''_str'' ''Test'' ''at Release'' @ '' @'', Some ''at access'')]
   \<and> console (read_times 3 7 (KStr ''_str'') (Some ''at access'') released_state)
       = [(''[Defend-check] '' @ msg_get_released ''_str'' ''Test'' ''at Release'' @ '' @'', Some ''at access''),
          (''[Defend-check] '' @ msg_get_released ''_str'' ''Test'' ''at Release'' @ '' @'', Some ''at access''),
          (''[Defend-check] '' @ msg_get_released ''_str'' ''Test'' ''at Release'' @ '' @'', Some ''at access'')]"
proof -
  have v: "KStr ''_str'' \<notin> VALID_GET_MISSING_KEYS" by (simp add: VALID_GET_MISSING_KEYS_def)
  have r: "read_report released_state 6 ''_str'' (Some ''at Release'') (Some ''at access'')
      = [(''[Defend-check] '' @ msg_get_released ''_str'' ''Test'' ''at Release'' @ '' @'', Some ''at access'')]"
    by (simp add: read_report_def released_state_fields test_state_heap has_prop_def map_has_def)
  have g: "get_prop (heap released_state 6) (KStr ''_str'') = VStr ''foo''"
    "get_prop (heap released_state 6) (KStr ''then'') = VUndefined"
    by (simp_all add: released_state_fields test_state_heap get_prop_def)
  show ?thesis
    using released_read_reports [OF released_state_fields(2) released_state_fields(1) v,
        of "Some ''at access''" 3 "KStr ''then''"] v r g
    by (simp add: released_state_fields VALID_GET_MISSING_KEYS_def numeral_3_eq_3)
qed

section \<open>Writes to an existing property\<close>









section \<open>What the entry points keep\<close>

text \<open>
  No entry point but \<open>Release\<close> writes \<open>releasedObjects\<close>; only the constructor of
  \<open>DefendedBase\<close> writes \<open>proxyToObject\<close>, at the address of the Proxy it creates.
\<close>

lemma handler_set_keeps:
  "releasedObjects (snd (handler_set target key v stk st)) = releasedObjects st"
  "proxyToObject (snd (handler_set target key v stk st)) = proxyToObject st"
  "next_addr (snd (handler_set target key v stk st)) = next_addr st"
  by (simp_all add: handler_set_def put_prop_def logDefendedObjectWarning_def Let_def
       split: option.splits sum.splits)

lemma trap_keeps:
  "snd (deleteProperty target key st) = st"
  "snd (defineProperty target key desc st) = st"
  by (simp_all add: deleteProperty_def defineProperty_def split: sum.splits)

lemma SetMode_keeps:
  "releasedObjects (snd (SetMode m st)) = releasedObjects st"
  "proxyToObject (snd (SetMode m st)) = proxyToObject st"
  "next_addr (snd (SetMode m st)) = next_addr st"
  by (simp_all add: SetMode_def split: val.splits)

lemma Check_keeps:
  "releasedObjects (CheckDefendedObjectsUsedCorrectly stk st) = releasedObjects st"
  "proxyToObject (CheckDefendedObjectsUsedCorrectly stk st) = proxyToObject st"
  "next_addr (CheckDefendedObjectsUsedCorrectly stk st) = next_addr st"
  by (simp_all add: CheckDefendedObjectsUsedCorrectly_def logDefendedObjectWarning_def Let_def)

lemma Object_seal_keeps:
  "releasedObjects (snd (Object_seal v st)) = releasedObjects st"
  "proxyToObject (snd (Object_seal v st)) = proxyToObject st"
  "next_addr (snd (Object_seal v st)) = next_addr st"
  by (simp_all add: Object_seal_def defineProperty_def Let_def
       split: option.splits list.splits sum.splits prod.splits)

lemma Defend_keeps:
  "releasedObjects (snd (Defend v st)) = releasedObjects st"
  "proxyToObject (snd (Defend v st)) = proxyToObject st"
  "next_addr (snd (Defend v st)) = next_addr st"
  by (simp_all add: Defend_def Object_seal_keeps split: option.splits)

lemma allocation_keeps_released:
  "releasedObjects (snd (DefendedBase_constructor f c st)) = releasedObjects st"
  "releasedObjects (snd (alloc_this f c st)) = releasedObjects st"
  by (simp_all add: DefendedBase_constructor_def alloc_this_def Let_def)

lemma construct_keeps_released:
  assumes "ctor_no_release env"
  shows "releasedObjects (snd (construct env Type args stk st)) = releasedObjects st"
proof (cases Type)
  case (VFunction f)
  show ?thesis
  proof (cases "env f")
    case None
    with VFunction show ?thesis by (simp add: construct_class)
  next
    case (Some c)
    obtain this st0 where a: "(if extends_defended c then DefendedBase_constructor f c st
                               else alloc_this f c st) = (this, st0)"
      by (cases "if extends_defended c then DefendedBase_constructor f c st else alloc_this f c st")
    have r0: "releasedObjects st0 = releasedObjects st"
      using a allocation_keeps_released [of f c st]
      by (cases "extends_defended c") (auto dest: arg_cong [where f = snd])
    have b: "releasedObjects (snd (body c args this stk st0)) = releasedObjects st0"
      using assms Some by (simp add: ctor_no_release_def)
    show ?thesis
      using VFunction Some a b r0
      by (auto simp: construct_class split: prod.splits sum.splits)
  qed
qed (simp_all add: construct_def)

lemma New_keeps_released:
  assumes "ctor_no_release env"
  shows "releasedObjects (snd (New env Type args stk st)) = releasedObjects st"
  using construct_keeps_released [OF assms, of Type args stk st]
  by (auto simp: New_def Let_def Defend_keeps Verify_keeps split: prod.splits sum.splits)

lemma apply_op_released:
  assumes "ctor_no_release env"
  shows "releasedObjects (apply_op env (c, stk) st)
           = (case c of
                DoRelease x \<Rightarrow>
                  (case real_object st x of
                     Some realObject \<Rightarrow> (releasedObjects st)(realObject \<mapsto> stk)
                   | None \<Rightarrow> releasedObjects st)
              | _ \<Rightarrow> releasedObjects st)"
  by (cases c)
     (simp_all add: handler_get_keeps handler_set_keeps trap_keeps SetMode_keeps Check_keeps
        New_keeps_released [OF assms] Release_def split: option.splits)


lemma run_released_truthy:
  assumes "ctor_no_release env" and "stacks_nonempty cs"
    and "releasedObjects st a = Some rel" and "truthy (stack_val rel)"
  shows "\<exists>rel'. releasedObjects (run env cs st) a = Some rel' \<and> truthy (stack_val rel')"
  using assms(2-)
proof (induction cs arbitrary: st rel)
  case Nil
  then show ?case by simp
next
  case (Cons c cs)
  obtain x stk where c: "c = (x, stk)" by (cases c)
  have s: "truthy (stack_val stk)" "stacks_nonempty cs"
    using Cons.prems(1) by (simp_all add: stacks_nonempty_def c)
  have "\<exists>rel'. releasedObjects (apply_op env c st) a = Some rel' \<and> truthy (stack_val rel')"
    using Cons.prems(2,3) s(1)
    by (simp add: c apply_op_released [OF assms(1)] split: op.splits option.splits)
  then obtain rel' where "releasedObjects (apply_op env c st) a = Some rel'"
    and "truthy (stack_val rel')" by blast
  then show ?case using Cons.IH [OF s(2)] by simp
qed

lemma run_no_release:
  assumes "ctor_no_release env" and "\<forall>c \<in> set cs. \<forall>x. fst c \<noteq> DoRelease x"
  shows "releasedObjects (run env cs st) = releasedObjects st"
  using assms(2)
proof (induction cs arbitrary: st)
  case Nil
  then show ?case by simp
next
  case (Cons c cs)
  obtain x stk where c: "c = (x, stk)" by (cases c)
  have "releasedObjects (apply_op env c st) = releasedObjects st"
    using Cons.prems by (simp add: c apply_op_released [OF assms(1)] split: op.splits)
  then show ?case using Cons by simp
qed

lemma proxies_kept_same:
  assumes "proxies_allocated st" and "proxyToObject st' = proxyToObject st"
    and "next_addr st' = next_addr st"
  shows "proxies_kept st st'"
  using assms by (simp add: proxies_kept_def proxies_allocated_def)

lemma proxies_kept_trans:
  assumes "proxies_kept st st1" and "proxies_kept st1 st2"
  shows "proxies_kept st st2"
  using assms by (simp add: proxies_kept_def)

lemma allocation_proxies:
  assumes "proxies_allocated st"
  shows "proxies_kept st (snd (alloc_this f c st))"
    and "proxies_kept st (snd (DefendedBase_constructor f c st))"
  using assms
  by (auto simp: proxies_kept_def proxies_allocated_def alloc_this_def
        DefendedBase_constructor_def Let_def less_Suc_eq dest: less_SucI)

lemma construct_proxies:
  assumes "proxies_allocated st" and "ctor_keeps_proxies env"
  shows "proxies_kept st (snd (construct env Type args stk st))"
proof (cases Type)
  case (VFunction f)
  show ?thesis
  proof (cases "env f")
    case None
    with VFunction assms(1) show ?thesis
      by (simp add: construct_class proxies_kept_same)
  next
    case (Some c)
    obtain this st0 where a: "(if extends_defended c then DefendedBase_constructor f c st
                               else alloc_this f c st) = (this, st0)"
      by (cases "if extends_defended c then DefendedBase_constructor f c st else alloc_this f c st")
    have k0: "proxies_kept st st0"
      using a allocation_proxies [OF assms(1), of f c]
      by (cases "extends_defended c") (auto dest: arg_cong [where f = snd])
    then have "proxies_allocated st0" by (simp add: proxies_kept_def)
    then have "proxies_kept st0 (snd (body c args this stk st0))"
      using assms(2) Some by (simp add: ctor_keeps_proxies_def)
    with k0 have "proxies_kept st (snd (body c args this stk st0))"
      by (rule proxies_kept_trans)
    then show ?thesis
      using VFunction Some a
      by (auto simp: construct_class split: prod.splits sum.splits)
  qed
qed (simp_all add: construct_def proxies_kept_same assms(1))

lemma New_proxies:
  assumes "proxies_allocated st" and "ctor_keeps_proxies env"
  shows "proxies_kept st (snd (New env Type args stk st))"
proof -
  let ?c = "construct env Type args stk st"
  have k: "proxies_kept st (snd ?c)" by (rule construct_proxies [OF assms])
  have "proxyToObject (snd (New env Type args stk st)) = proxyToObject st
          \<and> next_addr (snd (New env Type args stk st)) = next_addr st
        \<or> proxyToObject (snd (New env Type args stk st)) = proxyToObject (snd ?c)
          \<and> next_addr (snd (New env Type args stk st)) = next_addr (snd ?c)"
    by (auto simp: New_def Let_def Defend_keeps Verify_keeps split: prod.splits sum.splits)
  then show ?thesis
    using k assms(1) by (auto simp: proxies_kept_def proxies_allocated_def)
qed

lemma apply_op_proxies:
  assumes "proxies_allocated st" and "ctor_keeps_proxies env"
  shows "proxies_kept st (apply_op env c st)"
proof -
  obtain x stk where c: "c = (x, stk)" by (cases c)
  show ?thesis
    unfolding c
    by (cases x)
       (simp_all add: New_proxies [OF assms] proxies_kept_same [OF assms(1)] handler_get_keeps
          handler_set_keeps trap_keeps SetMode_keeps Check_keeps Release_def split: option.splits)
qed

lemma run_proxies:
  assumes "ctor_keeps_proxies env"
  shows "proxies_allocated st \<Longrightarrow> proxies_kept st (run env cs st)"
proof (induction cs arbitrary: st)
  case Nil
  then show ?case by (simp add: proxies_kept_same)
next
  case (Cons c cs)
  have k: "proxies_kept st (apply_op env c st)" by (rule apply_op_proxies [OF Cons.prems assms])
  then have "proxies_allocated (apply_op env c st)" by (simp add: proxies_kept_def)
  then have "proxies_kept (apply_op env c st) (run env cs (apply_op env c st))" by (rule Cons.IH)
  with k show ?case by (simp add: proxies_kept_trans)
qed

lemma run_real_object:
  assumes "ctor_keeps_proxies env" and "proxies_allocated st" and "real_object st v = Some target"
  shows "real_object (run env cs st) v = Some target"
  using run_proxies [OF assms(1,2), of cs] assms(3)
  by (auto simp: real_object_def proxies_kept_def split: option.splits)

section \<open>Release and WasReleased\<close>

lemma js_set_keeps:
  "releasedObjects (snd (js_set a key v stk st)) = releasedObjects st"
  "proxyToObject (snd (js_set a key v stk st)) = proxyToObject st"
  "next_addr (snd (js_set a key v stk st)) = next_addr st"
  by (simp_all add: js_set_def handler_set_keeps put_prop_def Let_def
       split: option.splits sum.splits prod.splits)

lemma assign_keeps:
  "releasedObjects (snd (assign this key v stk st)) = releasedObjects st"
  "proxyToObject (snd (assign this key v stk st)) = proxyToObject st"
  "next_addr (snd (assign this key v stk st)) = next_addr st"
  using js_set_keeps [of this key v stk st]
  by (auto simp: assign_def split: prod.splits sum.splits)

lemma flag_body_keeps:
  "releasedObjects (snd (flag_body args this stk st)) = releasedObjects st"
  "proxyToObject (snd (flag_body args this stk st)) = proxyToObject st"
  "next_addr (snd (flag_body args this stk st)) = next_addr st"
proof -
  obtain r st1 where a: "assign this (KStr ''_commonProperty'') (VNum 1) stk st = (r, st1)"
    by (cases "assign this (KStr ''_commonProperty'') (VNum 1) stk st")
  have k: "releasedObjects st1 = releasedObjects st" "proxyToObject st1 = proxyToObject st"
    "next_addr st1 = next_addr st"
    using assign_keeps [of this "KStr ''_commonProperty''" "VNum 1" stk st] a by simp_all
  show "releasedObjects (snd (flag_body args this stk st)) = releasedObjects st"
    "proxyToObject (snd (flag_body args this stk st)) = proxyToObject st"
    "next_addr (snd (flag_body args this stk st)) = next_addr st"
    using k by (cases r; simp add: flag_body_def and_then_def a assign_keeps)+
qed

lemma thrower_body_keeps:
  "releasedObjects (snd (body Thrower_class args this stk st)) = releasedObjects st"
  "proxyToObject (snd (body Thrower_class args this stk st)) = proxyToObject st"
  "next_addr (snd (body Thrower_class args this stk st)) = next_addr st"
proof -
  obtain r st1 where a: "assign this (KStr ''_a'') (VNum 1) stk st = (r, st1)"
    by (cases "assign this (KStr ''_a'') (VNum 1) stk st")
  have k: "releasedObjects st1 = releasedObjects st" "proxyToObject st1 = proxyToObject st"
    "next_addr st1 = next_addr st"
    using assign_keeps [of this "KStr ''_a''" "VNum 1" stk st] a by simp_all
  show "releasedObjects (snd (body Thrower_class args this stk st)) = releasedObjects st"
    "proxyToObject (snd (body Thrower_class args this stk st)) = proxyToObject st"
    "next_addr (snd (body Thrower_class args this stk st)) = next_addr st"
    using k by (cases r; simp add: Thrower_class_def and_then_def a)+
qed

lemma example_bodies_keep:
  assumes "example_env f = Some c"
  shows "releasedObjects (snd (body c args this stk st)) = releasedObjects st"
    and "proxyToObject (snd (body c args this stk st)) = proxyToObject st"
    and "next_addr (snd (body c args this stk st)) = next_addr st"
proof -
  from assms have "c = Test_class \<or> c = InconsistentProperties_class \<or> c = Plain_class
      \<or> c = Thrower_class"
    by (auto simp: example_env_def split: if_splits)
  then show "releasedObjects (snd (body c args this stk st)) = releasedObjects st"
    and "proxyToObject (snd (body c args this stk st)) = proxyToObject st"
    and "next_addr (snd (body c args this stk st)) = next_addr st"
    using thrower_body_keeps [of args this stk st] flag_body_keeps [of args this stk st]
      assign_keeps [of this "KStr ''_str''" "VStr ''foo''" stk st]
    by (auto simp: Test_class_def InconsistentProperties_class_def Plain_class_def)
qed

lemma example_env_no_release: "ctor_no_release example_env"
  by (simp add: ctor_no_release_def example_bodies_keep)

lemma example_env_keeps_proxies: "ctor_keeps_proxies example_env"
  by (simp add: ctor_keeps_proxies_def example_bodies_keep proxies_kept_same)




text \<open>
  Claim C9.  \<open>WasReleased\<close> is to return true at every point after \<open>Release\<close>.
  \<open>Release\<close> stores the call stack, and \<open>WasReleased\<close> returns the truth value of
  what is stored, where the traps ask whether an entry exists.  When the call stack
  is \<open>undefined\<close>, the instance of \<open>Test\<close> is in \<open>releasedObjects\<close> after \<open>Release\<close>, its
  reads are reported as reads of a released object, and \<open>WasReleased\<close> returns false;
  so it does when the call stack is the empty string.
\<close>

theorem WasReleased_false_after_release:
  "real_object test_state (VObject 7) = Some 6
   \<and> releasedObjects (Release (VObject 7) None test_state) 6 = Some None
   \<and> \<not> WasReleased (VObject 7) (Release (VObject 7) None test_state)
   \<and> console (snd (js_get 7 (KStr ''_str'') (Some ''at access'')
                     (Release (VObject 7) None test_state)))
       = [(''[Defend-check] '' @ msg_get_released ''_str'' ''Test'' ''undefined'' @ '' @'',
           Some ''at access'')]
   \<and> releasedObjects (Release (VObject 7) (Some []) test_state) 6 = Some (Some [])
   \<and> \<not> WasReleased (VObject 7) (Release (VObject 7) (Some []) test_state)"
  by (simp add: Release_def real_object_def WasReleased_def test_state_maps test_state_heap
       js_get_def handler_get_def VALID_GET_MISSING_KEYS_def has_prop_def map_has_def Let_def
       logDefendedObjectWarning_def)

text \<open>
  What \<open>WasReleased\<close> computes.  For a Proxy \<open>o'\<close> with real object \<open>target\<close>, it is
  true exactly when \<open>releasedObjects\<close> holds a call stack for \<open>target\<close> that is true as
  a condition (a non-empty string).  So it is false while \<open>target\<close> is not released,
  also after any run without \<open>Release\<close>; after \<open>Release(o')\<close> with such a call stack it
  is true, and stays true after every run whose call stacks are such.  For a value
  without tracked identity it is false.  \<open>WasReleased\<close> is a function of its argument
  and the state and returns only a truth value: as an entry point it leaves the state,
  hence the log, unchanged.
\<close>

theorem WasReleased_tracks_release:
  assumes "proxies_allocated st" and "ctor_no_release env" and "ctor_keeps_proxies env"
    and "real_object st o' = Some target"
  shows "WasReleased o' st = (\<exists>rel. releasedObjects st target = Some rel \<and> truthy (stack_val rel))
         \<and> (releasedObjects st target = None \<and> (\<forall>c \<in> set cs. \<forall>x. fst c \<noteq> DoRelease x) \<longrightarrow>
              \<not> WasReleased o' (run env cs st))
         \<and> (truthy (stack_val stk) \<and> stacks_nonempty cs \<longrightarrow>
              WasReleased o' (run env cs (Release o' stk st)))
         \<and> (real_object st x = None \<longrightarrow> \<not> WasReleased x st)
         \<and> apply_op env (DoWasReleased x, stk') st = st"
proof -
  have w: "\<And>s. real_object s o' = Some target \<Longrightarrow>
      WasReleased o' s = (\<exists>rel. releasedObjects s target = Some rel \<and> truthy (stack_val rel))"
    by (simp add: WasReleased_def split: option.splits)
  have a: "WasReleased o' st = (\<exists>rel. releasedObjects st target = Some rel \<and> truthy (stack_val rel))"
    by (rule w [OF assms(4)])
  have b: "releasedObjects st target = None \<and> (\<forall>c \<in> set cs. \<forall>x. fst c \<noteq> DoRelease x) \<longrightarrow>
              \<not> WasReleased o' (run env cs st)"
  proof (intro impI, elim conjE)
    assume n: "releasedObjects st target = None" and c: "\<forall>c \<in> set cs. \<forall>x. fst c \<noteq> DoRelease x"
    have "releasedObjects (run env cs st) = releasedObjects st"
      by (rule run_no_release [OF assms(2) c])
    moreover have "real_object (run env cs st) o' = Some target"
      by (rule run_real_object [OF assms(3) assms(1) assms(4)])
    ultimately show "\<not> WasReleased o' (run env cs st)" using n by (simp add: w)
  qed
  have c: "truthy (stack_val stk) \<and> stacks_nonempty cs \<longrightarrow>
              WasReleased o' (run env cs (Release o' stk st))"
  proof (intro impI, elim conjE)
    assume t: "truthy (stack_val stk)" and s: "stacks_nonempty cs"
    let ?st1 = "Release o' stk st"
    have r1: "releasedObjects ?st1 target = Some stk" using assms(4) by (simp add: Release_def)
    have p1: "proxies_allocated ?st1" "real_object ?st1 o' = Some target"
      using assms(1,4)
      by (simp_all add: Release_def proxies_allocated_def real_object_def split: option.splits)
    from run_released_truthy [OF assms(2) s r1 t] obtain rel'
      where "releasedObjects (run env cs ?st1) target = Some rel'" and "truthy (stack_val rel')"
      by blast
    moreover have "real_object (run env cs ?st1) o' = Some target"
      by (rule run_real_object [OF assms(3) p1])
    ultimately show "WasReleased o' (run env cs ?st1)" by (simp add: w)
  qed
  have d: "real_object st x = None \<longrightarrow> \<not> WasReleased x st"
    by (simp add: WasReleased_def)
  show ?thesis using a b c d by simp
qed

lemma test_state_allocated: "proxies_allocated test_state"
proof -
  have "proxyToObject test_state = [7 \<mapsto> 6]" "next_addr test_state = 8"
    by (simp_all add: test_state_def model_defs example_defs)
  then show ?thesis by (simp add: proxies_allocated_def)
qed

theorem WasReleased_tracks_release_witness:
  "proxies_allocated test_state \<and> ctor_no_release example_env \<and> ctor_keeps_proxies example_env
   \<and> real_object test_state (VObject 7) = Some 6
   \<and> releasedObjects test_state 6 = None
   \<and> truthy (stack_val (Some ''at Release''))
   \<and> stacks_nonempty example_run
   \<and> \<not> WasReleased (VObject 7) test_state
   \<and> WasReleased (VObject 7) (Release (VObject 7) (Some ''at Release'') test_state)
   \<and> WasReleased (VObject 7)
        (run example_env example_run (Release (VObject 7) (Some ''at Release'') test_state))
   \<and> real_object test_state (VNum 1) = None
   \<and> \<not> WasReleased (VNum 1) test_state"
proof -
  have r: "real_object test_state (VObject 7) = Some 6" "real_object test_state (VNum 1) = None"
    by (simp_all add: real_object_def test_state_maps)
  have s: "stacks_nonempty example_run" by (simp add: stacks_nonempty_def example_run_def)
  note t = WasReleased_tracks_release [OF test_state_allocated example_env_no_release
      example_env_keeps_proxies r(1)]
  show ?thesis
    using t [of "[]" "Some ''at Release''" "VNum 1" None]
      t [of example_run "Some ''at Release''" "VNum 1" None]
      r s test_state_allocated example_env_no_release example_env_keeps_proxies
    by (simp add: test_state_maps stacks_nonempty_def)
qed

end
